theory Spec2Isabelle
  imports Complex_Main
begin

section \<open>Strings\<close>

text \<open>
  A string is the list of its code units; the model covers the code units below 256.
  \<open>is_space\<close> is the white space and line terminators of \<open>String.prototype.trim\<close>
  and of the pattern \<open>\s\<close> in that range: TAB, LF, VT, FF, CR, SP and NBSP.
\<close>

definition is_space :: "char \<Rightarrow> bool" where
  "is_space c = (c \<in> {CHR 0x09, CHR 0x0A, CHR 0x0B, CHR 0x0C, CHR 0x0D, CHR 0x20, CHR 0xA0})"

definition trim :: "string \<Rightarrow> string" where
  "trim s = rev (dropWhile is_space (rev (dropWhile is_space s)))"

section \<open>CSV line parser (js/products.js, parseCSVLine)\<close>

text \<open>The loop of \<open>parseCSVLine\<close> over the characters still to read, with its three
  variables.\<close>

fun parseCSVLine_loop :: "string \<Rightarrow> string list \<Rightarrow> string \<Rightarrow> bool \<Rightarrow> string list" where
  "parseCSVLine_loop [] values current inQuotes = values @ [trim current]"
| "parseCSVLine_loop (char # rest) values current inQuotes =
     (if char = CHR 0x22 then parseCSVLine_loop rest values current (\<not> inQuotes)
      else if char = CHR '','' \<and> \<not> inQuotes
        then parseCSVLine_loop rest (values @ [trim current]) [] inQuotes
      else parseCSVLine_loop rest values (current @ [char]) inQuotes)"

definition parseCSVLine :: "string \<Rightarrow> string list" where
  "parseCSVLine line = parseCSVLine_loop line [] [] False"

subsection \<open>The fields of a line as the specification describes them\<close>

text \<open>
  A position is inside quotes when an odd number of quote characters precedes it.  The
  separators are the commas outside quotes; the fields are the pieces of the line between
  consecutive separators, with the quote characters taken out and white space trimmed.
\<close>

definition inside_quotes :: "string \<Rightarrow> nat \<Rightarrow> bool" where
  "inside_quotes line i = odd (count_list (take i line) (CHR 0x22))"

definition separators :: "string \<Rightarrow> nat list" where
  "separators line =
     filter (\<lambda>i. line ! i = CHR '','' \<and> \<not> inside_quotes line i) [0..<length line]"

definition spans :: "string \<Rightarrow> (nat \<times> nat) list" where
  "spans line = zip (0 # map Suc (separators line)) (separators line @ [length line])"

definition slice :: "nat \<Rightarrow> nat \<Rightarrow> string \<Rightarrow> string" where
  "slice a b s = take (b - a) (drop a s)"

definition unquote :: "string \<Rightarrow> string" where
  "unquote s = filter (\<lambda>c. c \<noteq> CHR 0x22) s"

definition fields_spec :: "string \<Rightarrow> string list" where
  "fields_spec line = map (\<lambda>(a, b). trim (unquote (slice a b line))) (spans line)"

text \<open>The pieces of the line between consecutive separators, as they stand in the line.\<close>

definition pieces :: "string \<Rightarrow> string list" where
  "pieces line = map (\<lambda>(a, b). slice a b line) (spans line)"

text \<open>Auxiliary forms used in the proofs: the same notions for a line read from a given
  quote state.\<close>

fun segs :: "bool \<Rightarrow> string \<Rightarrow> string list" where
  "segs q [] = [[]]"
| "segs q (c # cs) =
     (if c = CHR '','' \<and> \<not> q then [] # segs q cs
      else (case segs (if c = CHR 0x22 then \<not> q else q) cs of
              f # fs \<Rightarrow> (c # f) # fs | [] \<Rightarrow> []))"

definition seps_from :: "bool \<Rightarrow> string \<Rightarrow> nat list" where
  "seps_from q line =
     filter (\<lambda>i. line ! i = CHR '','' \<and> (q = odd (count_list (take i line) (CHR 0x22))))
       [0..<length line]"

definition spans_from :: "bool \<Rightarrow> string \<Rightarrow> (nat \<times> nat) list" where
  "spans_from q line = zip (0 # map Suc (seps_from q line)) (seps_from q line @ [length line])"


section \<open>Image URL resolver (js/products.js, convertGoogleDriveUrl)\<close>

fun startsWith :: "string \<Rightarrow> string \<Rightarrow> bool" where
  "startsWith s [] = True"
| "startsWith [] (p # ps) = False"
| "startsWith (c # cs) (p # ps) = (c = p \<and> startsWith cs ps)"

text \<open>\<open>String.prototype.includes\<close>.\<close>

fun includes_str :: "string \<Rightarrow> string \<Rightarrow> bool" where
  "includes_str [] sub = startsWith [] sub"
| "includes_str (c # cs) sub = (startsWith (c # cs) sub \<or> includes_str cs sub)"

text \<open>
  \<open>String.prototype.match\<close> with a pattern that has no flags tries the pattern at every
  position from the left and returns the first match.  A pattern is given here by its
  match at the start of a string, which yields the text of capture group 1.
\<close>

fun regex_search :: "(string \<Rightarrow> string option) \<Rightarrow> string \<Rightarrow> string option" where
  "regex_search m [] = m []"
| "regex_search m (c # cs) =
     (case m (c # cs) of Some g \<Rightarrow> Some g | None \<Rightarrow> regex_search m cs)"

text \<open>A final group \<open>([^x]+)\<close>: the longest run of characters other than \<open>x\<close>, which
  must not be empty.\<close>

definition capture_until :: "char \<Rightarrow> string \<Rightarrow> string option" where
  "capture_until x s =
     (let g = takeWhile (\<lambda>c. c \<noteq> x) s in if g = [] then None else Some g)"

text \<open>The pattern \<open>/\/file\/d\/([^\/]+)/\<close> at the start of a string.\<close>

definition fileMatch_at :: "string \<Rightarrow> string option" where
  "fileMatch_at s =
     (if startsWith s ''/file/d/'' then capture_until (CHR ''/'') (drop 8 s) else None)"

text \<open>The pattern \<open>/[?&]id=([^&]+)/\<close> at the start of a string.\<close>

definition openMatch_at :: "string \<Rightarrow> string option" where
  "openMatch_at s =
     (case s of
        [] \<Rightarrow> None
      | c # r \<Rightarrow>
          if (c = CHR ''?'' \<or> c = CHR ''&'') \<and> startsWith r ''id=''
          then capture_until (CHR ''&'') (drop 3 r) else None)"

text \<open>
  The pattern \<open>/\/uc\?.*id=([^&]+)/\<close> at the start of a string.  The dot matches every
  character but a line terminator (LF and CR in the modelled range); the star is greedy,
  so the longest stretch is tried first and shorter ones on failure.
\<close>

definition is_line_terminator :: "char \<Rightarrow> bool" where
  "is_line_terminator c = (c = CHR 0x0A \<or> c = CHR 0x0D)"

definition id_at :: "string \<Rightarrow> string option" where
  "id_at s = (if startsWith s ''id='' then capture_until (CHR ''&'') (drop 3 s) else None)"

fun dot_star_id :: "string \<Rightarrow> string option" where
  "dot_star_id [] = id_at []"
| "dot_star_id (c # cs) =
     (case (if is_line_terminator c then None else dot_star_id cs) of
        Some g \<Rightarrow> Some g
      | None \<Rightarrow> id_at (c # cs))"

definition ucMatch_at :: "string \<Rightarrow> string option" where
  "ucMatch_at s = (if startsWith s ''/uc?'' then dot_star_id (drop 4 s) else None)"

definition fileMatch :: "string \<Rightarrow> string option" where
  "fileMatch url = regex_search fileMatch_at url"

definition openMatch :: "string \<Rightarrow> string option" where
  "openMatch url = regex_search openMatch_at url"

definition ucMatch :: "string \<Rightarrow> string option" where
  "ucMatch url = regex_search ucMatch_at url"

definition thumbnail :: "string \<Rightarrow> string" where
  "thumbnail fileId = ''https://drive.google.com/thumbnail?id='' @ fileId @ ''&sz=w800''"

text \<open>The argument is a string; the source also returns the empty string for
  \<open>null\<close> and \<open>undefined\<close>.\<close>

definition convertGoogleDriveUrl :: "string \<Rightarrow> string" where
  "convertGoogleDriveUrl url =
     (if url = [] then []
      else if \<not> includes_str url ''drive.google.com'' then url
      else
        let fileId = None;
            fileId = (case fileMatch url of Some g \<Rightarrow> Some g | None \<Rightarrow> fileId);
            fileId = (case openMatch url of Some g \<Rightarrow> Some g | None \<Rightarrow> fileId);
            fileId = (case ucMatch url of Some g \<Rightarrow> Some g | None \<Rightarrow> fileId)
        in (case fileId of
              Some g \<Rightarrow> if g \<noteq> [] then thumbnail g else url
            | None \<Rightarrow> url))"


section \<open>JavaScript values\<close>

text \<open>
  A number is NaN, an infinity or a finite value, taken as an exact rational: rounding to
  binary64 is not modelled.  The values that occur as properties of products and of order
  items are strings, numbers, booleans and lists of strings.
\<close>

datatype number = NaN | PosInfinity | NegInfinity | Finite rat

datatype jsval = JStr string | JNum number | JBool bool | JList "string list"

definition truthy_number :: "number \<Rightarrow> bool" where
  "truthy_number n = (n \<noteq> NaN \<and> n \<noteq> Finite 0)"

fun truthy :: "jsval \<Rightarrow> bool" where
  "truthy (JStr s) = (s \<noteq> [])"
| "truthy (JNum n) = truthy_number n"
| "truthy (JBool b) = b"
| "truthy (JList xs) = True"

subsection \<open>Binary64 arithmetic\<close>

text \<open>
  The arithmetic operators round the exact result to the nearest binary64 value, ties to
  the value with an even significand; a result of magnitude \<open>2^1024\<close> or more after rounding
  is an infinity.  \<open>floor_log2 x\<close> is the binary exponent of a positive \<open>x\<close>, the \<open>e\<close> with
  \<open>2^e \<le> x < 2^(e+1)\<close>; below the normal range the exponent stays at \<open>-1022\<close>, and the
  spacing of the values at exponent \<open>e\<close> is \<open>2^(e-52)\<close>.  The sign of a zero is not kept.
\<close>

fun bit_length :: "nat \<Rightarrow> nat" where
  "bit_length n = (if n = 0 then 0 else Suc (bit_length (n div 2)))"

declare bit_length.simps [simp del]

definition pow2 :: "int \<Rightarrow> rat" where
  "pow2 k = (if 0 \<le> k then 2 ^ nat k else 1 / 2 ^ nat (- k))"

definition floor_log2 :: "rat \<Rightarrow> int" where
  "floor_log2 x =
     (if 1 \<le> x then int (bit_length (nat \<lfloor>x\<rfloor>)) - 1
      else - int (bit_length (nat (\<lceil>1 / x\<rceil> - 1))))"

definition round_half_even :: "rat \<Rightarrow> int" where
  "round_half_even x =
     (let f = \<lfloor>x\<rfloor>; r = x - of_int f
      in if r < 1 / 2 then f
         else if 1 / 2 < r then f + 1
         else if even f then f else f + 1)"

definition binary64 :: "rat \<Rightarrow> number" where
  "binary64 x =
     (if x = 0 then Finite 0
      else
        let a = \<bar>x\<bar>;
            e = max (floor_log2 a) (- 1022);
            ulp = pow2 (e - 52);
            r = of_int (round_half_even (a / ulp)) * ulp
        in if pow2 1024 \<le> r then (if x < 0 then NegInfinity else PosInfinity)
           else Finite (if x < 0 then - r else r))"

text \<open>The operators \<open>+\<close> and \<open>*\<close> on numbers.\<close>

fun plus64 :: "number \<Rightarrow> number \<Rightarrow> number" where
  "plus64 NaN y = NaN"
| "plus64 x NaN = NaN"
| "plus64 PosInfinity NegInfinity = NaN"
| "plus64 NegInfinity PosInfinity = NaN"
| "plus64 PosInfinity y = PosInfinity"
| "plus64 NegInfinity y = NegInfinity"
| "plus64 (Finite a) PosInfinity = PosInfinity"
| "plus64 (Finite a) NegInfinity = NegInfinity"
| "plus64 (Finite a) (Finite b) = binary64 (a + b)"

fun times64 :: "number \<Rightarrow> number \<Rightarrow> number" where
  "times64 NaN y = NaN"
| "times64 x NaN = NaN"
| "times64 (Finite a) (Finite b) = binary64 (a * b)"
| "times64 (Finite a) PosInfinity =
     (if a = 0 then NaN else if 0 < a then PosInfinity else NegInfinity)"
| "times64 (Finite a) NegInfinity =
     (if a = 0 then NaN else if 0 < a then NegInfinity else PosInfinity)"
| "times64 PosInfinity (Finite b) =
     (if b = 0 then NaN else if 0 < b then PosInfinity else NegInfinity)"
| "times64 NegInfinity (Finite b) =
     (if b = 0 then NaN else if 0 < b then NegInfinity else PosInfinity)"
| "times64 PosInfinity PosInfinity = PosInfinity"
| "times64 PosInfinity NegInfinity = NegInfinity"
| "times64 NegInfinity PosInfinity = NegInfinity"
| "times64 NegInfinity NegInfinity = PosInfinity"



section \<open>Cart store (js/cart.js)\<close>

text \<open>
  The numeric properties of a line item are finite numbers, given by their exact value; NaN
  and the infinities do not occur in a line item.  The counts and totals are computed with
  the binary64 operators; the quantity update of \<open>add\<close> is taken exactly.  A property
  that may be \<open>undefined\<close> in the source is an \<open>option\<close>.  List positions handed in by
  callers are integers.
\<close>

record cart_item =
  item_id :: string
  item_name :: string
  item_price :: rat
  item_shipping :: rat
  item_image :: "string option"
  item_size :: string
  item_color :: string
  item_quantity :: rat
  item_category :: "string option"

text \<open>The properties of a product that \<open>add\<close> reads.\<close>

record product_ref =
  product_id :: string
  product_name :: string
  product_price :: rat
  product_shipping :: "rat option"
  product_image :: "string option"
  product_category :: "string option"

subsection \<open>The platform: localStorage and JSON\<close>

text \<open>
  \<open>JSON.stringify\<close> and \<open>JSON.parse\<close> belong to the platform.  A stored text is
  modelled by what \<open>JSON.parse\<close> makes of it: the empty string, a text the parser rejects,
  or the document of a list of line items.  A storage may refuse every access
  (\<open>denied\<close>) or refuse writes (\<open>quota_exceeded\<close>); both surface as exceptions of
  \<open>getItem\<close> and \<open>setItem\<close>.
\<close>

datatype json_text = Empty_text | Malformed | Doc "cart_item list"

datatype error = SecurityError | QuotaExceededError | SyntaxError

record storage =
  slots :: "string \<Rightarrow> json_text option"
  denied :: bool
  quota_exceeded :: bool

definition getItem :: "storage \<Rightarrow> string \<Rightarrow> error + json_text option" where
  "getItem sto k = (if denied sto then Inl SecurityError else Inr (slots sto k))"

definition setItem :: "storage \<Rightarrow> string \<Rightarrow> json_text \<Rightarrow> error + storage" where
  "setItem sto k v =
     (if denied sto then Inl SecurityError
      else if quota_exceeded sto then Inl QuotaExceededError
      else Inr (sto\<lparr>slots := (slots sto)(k \<mapsto> v)\<rparr>))"

definition JSON_stringify :: "cart_item list \<Rightarrow> json_text" where
  "JSON_stringify xs = Doc xs"

fun JSON_parse :: "json_text \<Rightarrow> error + cart_item list" where
  "JSON_parse (Doc xs) = Inr xs"
| "JSON_parse Malformed = Inl SyntaxError"
| "JSON_parse Empty_text = Inl SyntaxError"

subsection \<open>Cart state and operations\<close>

text \<open>
  The state of the page as far as the cart touches it: the line items, the storage, the
  number shown by the \<open>.cart-count\<close> badges and the notifications raised so far
  (message and type).
\<close>

record cart =
  items :: "cart_item list"
  local_storage :: storage
  cart_count :: number
  toasts :: "(string \<times> string) list"

definition STORAGE_KEY :: string where
  "STORAGE_KEY = ''kamelkross_cart''"

definition toast :: "string \<Rightarrow> string \<Rightarrow> cart \<Rightarrow> cart" where
  "toast message type c = c\<lparr>toasts := toasts c @ [(message, type)]\<rparr>"

definition getItemCount :: "cart \<Rightarrow> number" where
  "getItemCount c =
     foldl (\<lambda>total item. plus64 total (Finite (item_quantity item))) (Finite 0) (items c)"

definition getSubtotal :: "cart \<Rightarrow> number" where
  "getSubtotal c =
     foldl (\<lambda>total item.
              plus64 total (times64 (Finite (item_price item)) (Finite (item_quantity item))))
       (Finite 0) (items c)"

definition getShipping :: "cart \<Rightarrow> number" where
  "getShipping c =
     foldl (\<lambda>total item.
              plus64 total (times64 (Finite (item_shipping item)) (Finite (item_quantity item))))
       (Finite 0) (items c)"

definition getTotal :: "cart \<Rightarrow> number" where
  "getTotal c = plus64 (getSubtotal c) (getShipping c)"

definition isEmpty :: "cart \<Rightarrow> bool" where
  "isEmpty c = (length (items c) = 0)"

definition updateCartCount :: "cart \<Rightarrow> cart" where
  "updateCartCount c = c\<lparr>cart_count := getItemCount c\<rparr>"

definition load :: "cart \<Rightarrow> cart" where
  "load c =
     (case getItem (local_storage c) STORAGE_KEY of
        Inl e \<Rightarrow> c\<lparr>items := []\<rparr>
      | Inr saved \<Rightarrow>
          (case saved of
             None \<Rightarrow> c\<lparr>items := []\<rparr>
           | Some t \<Rightarrow>
               if t = Empty_text then c\<lparr>items := []\<rparr>
               else (case JSON_parse t of
                       Inl e \<Rightarrow> c\<lparr>items := []\<rparr>
                     | Inr xs \<Rightarrow> c\<lparr>items := xs\<rparr>)))"

definition save :: "cart \<Rightarrow> cart" where
  "save c =
     (case setItem (local_storage c) STORAGE_KEY (JSON_stringify (items c)) of
        Inl e \<Rightarrow> c
      | Inr sto \<Rightarrow> updateCartCount (c\<lparr>local_storage := sto\<rparr>))"

definition init :: "cart \<Rightarrow> cart" where
  "init c = updateCartCount (load c)"

text \<open>\<open>Array.prototype.findIndex\<close>: the first position whose element satisfies the
  predicate, or \<open>-1\<close>.\<close>

fun findIndex_from :: "('a \<Rightarrow> bool) \<Rightarrow> 'a list \<Rightarrow> int \<Rightarrow> int" where
  "findIndex_from P [] i = -1"
| "findIndex_from P (x # xs) i = (if P x then i else findIndex_from P xs (i + 1))"

definition findIndex :: "('a \<Rightarrow> bool) \<Rightarrow> 'a list \<Rightarrow> int" where
  "findIndex P xs = findIndex_from P xs 0"

definition add :: "product_ref \<Rightarrow> string \<Rightarrow> string \<Rightarrow> rat \<Rightarrow> cart \<Rightarrow> cart_item \<times> cart" where
  "add product size' color quantity c =
     (let existingIndex = findIndex (\<lambda>item.
            item_id item = product_id product \<and>
            item_size item = size' \<and>
            item_color item = color) (items c);
          c1 = (if existingIndex \<ge> 0
                then c\<lparr>items := (items c)[nat existingIndex :=
                        (items c ! nat existingIndex)
                          \<lparr>item_quantity := item_quantity (items c ! nat existingIndex) + quantity\<rparr>]\<rparr>
                else c\<lparr>items := items c @
                        [\<lparr>item_id = product_id product,
                          item_name = product_name product,
                          item_price = product_price product,
                          item_shipping = (case product_shipping product of
                                             None \<Rightarrow> 0
                                           | Some s \<Rightarrow> if s = 0 then 0 else s),
                          item_image = product_image product,
                          item_size = size',
                          item_color = color,
                          item_quantity = quantity,
                          item_category = product_category product\<rparr>]\<rparr>);
          c2 = save c1;
          c3 = toast (product_name product @ '' added to cart'') ''success'' c2
      in (items c3 ! (if existingIndex \<ge> 0 then nat existingIndex else length (items c3) - 1), c3))"

definition remove_item :: "int \<Rightarrow> cart \<Rightarrow> cart" where
  "remove_item index c =
     (if index \<ge> 0 \<and> index < int (length (items c))
      then let item = items c ! nat index;
               c1 = c\<lparr>items := take (nat index) (items c) @ drop (nat index + 1) (items c)\<rparr>;
               c2 = save c1
           in toast (item_name item @ '' removed from cart'') ''success'' c2
      else c)"

definition updateQuantity :: "int \<Rightarrow> rat \<Rightarrow> cart \<Rightarrow> cart" where
  "updateQuantity index quantity c =
     (if index \<ge> 0 \<and> index < int (length (items c))
      then if quantity \<le> 0
           then remove_item index c
           else save (c\<lparr>items := (items c)[nat index :=
                        (items c ! nat index)\<lparr>item_quantity := quantity\<rparr>]\<rparr>)
      else c)"


subsection \<open>Order payload\<close>

text \<open>An object literal is the list of its properties in the order they are written.\<close>

type_synonym object = "(string \<times> jsval) list"

record 'c order_payload =
  order_customer :: 'c
  order_items :: "object list"
  order_subtotal :: number
  order_shipping :: number
  order_total :: number
  order_currency :: string
  order_timestamp :: string

definition CONFIG_store_currency :: string where
  "CONFIG_store_currency = ''ZAR''"

text \<open>\<open>now\<close> is the value of \<open>new Date().toISOString()\<close> at the call.  The cart is
  returned with the payload so that the effect of the call on it can be stated.\<close>

definition prepareOrderData :: "'c \<Rightarrow> string \<Rightarrow> cart \<Rightarrow> 'c order_payload \<times> cart" where
  "prepareOrderData customerInfo now c =
     (\<lparr>order_customer = customerInfo,
       order_items = map (\<lambda>item.
           [(''id'', JStr (item_id item)),
            (''name'', JStr (item_name item)),
            (''size'', JStr (item_size item)),
            (''color'', JStr (item_color item)),
            (''quantity'', JNum (Finite (item_quantity item))),
            (''price'', JNum (Finite (item_price item)))]) (items c),
       order_subtotal = getSubtotal c,
       order_shipping = getShipping c,
       order_total = getTotal c,
       order_currency = CONFIG_store_currency,
       order_timestamp = now\<rparr>, c)"

subsection \<open>Sequences of cart mutations\<close>









subsection \<open>Concrete carts\<close>

definition fresh_storage :: storage where
  "fresh_storage = \<lparr>slots = (\<lambda>k. None), denied = False, quota_exceeded = False\<rparr>"

definition empty_cart :: cart where
  "empty_cart =
     \<lparr>items = [], local_storage = fresh_storage, cart_count = Finite 0, toasts = []\<rparr>"


definition example_lines :: "cart_item list" where
  "example_lines =
     [\<lparr>item_id = ''a'', item_name = ''A'', item_price = 100, item_shipping = 10,
       item_image = None, item_size = ''M'', item_color = ''Black'', item_quantity = 2,
       item_category = None\<rparr>,
      \<lparr>item_id = ''b'', item_name = ''B'', item_price = 50, item_shipping = 5,
       item_image = None, item_size = ''L'', item_color = ''White'', item_quantity = 1,
       item_category = None\<rparr>]"

definition example_cart :: cart where
  "example_cart = empty_cart\<lparr>items := example_lines\<rparr>"







section \<open>Catalog loader (js/products.js)\<close>

subsection \<open>String functions of the platform\<close>

text \<open>\<open>String.prototype.toLowerCase\<close> on the modelled range: the letters A to Z and the
  Latin-1 capitals (0xC0 to 0xDE without the multiplication sign 0xD7) move up by 32.\<close>

definition toLowerCase_char :: "char \<Rightarrow> char" where
  "toLowerCase_char c =
     (let n = (of_char c :: nat)
      in if (65 \<le> n \<and> n \<le> 90) \<or> (192 \<le> n \<and> n \<le> 222 \<and> n \<noteq> 215)
         then char_of (n + 32) else c)"

definition toLowerCase :: "string \<Rightarrow> string" where
  "toLowerCase s = map toLowerCase_char s"

text \<open>\<open>String.prototype.split\<close> with a separator of one character.\<close>

fun split_on :: "char \<Rightarrow> string \<Rightarrow> string list" where
  "split_on sep [] = [[]]"
| "split_on sep (c # cs) =
     (if c = sep then [] # split_on sep cs
      else (case split_on sep cs of f # fs \<Rightarrow> (c # f) # fs | [] \<Rightarrow> [[c]]))"

text \<open>\<open>replace(/\s+/g, '_')\<close>: every maximal run of white space becomes one underscore.\<close>

function replace_spaces :: "string \<Rightarrow> string" where
  "replace_spaces [] = []"
| "replace_spaces (c # cs) =
     (if is_space c then CHR ''_'' # replace_spaces (dropWhile is_space cs)
      else c # replace_spaces cs)"
  by pat_completeness auto
termination
  by (relation "measure length") (auto simp add: length_dropWhile_le less_Suc_eq_le)

subsection \<open>parseFloat\<close>

text \<open>
  \<open>parseFloat\<close> belongs to the platform; \<open>parseCSV\<close> takes it as a parameter.
  \<open>parseFloat_decimal\<close> is its reading of the longest prefix that is a decimal literal
  (after leading white space), with the exact decimal value of the literal.
\<close>

definition is_digit :: "char \<Rightarrow> bool" where
  "is_digit c = (48 \<le> (of_char c :: nat) \<and> (of_char c :: nat) \<le> 57)"

definition digits_value :: "string \<Rightarrow> nat" where
  "digits_value ds = foldl (\<lambda>a c. 10 * a + (of_char c - 48)) 0 ds"

definition pow10 :: "int \<Rightarrow> rat" where
  "pow10 k = (if 0 \<le> k then 10 ^ nat k else 1 / 10 ^ nat (- k))"

definition split_sign :: "string \<Rightarrow> bool \<times> string" where
  "split_sign s =
     (case s of
        [] \<Rightarrow> (False, [])
      | x # r \<Rightarrow> if x = CHR ''-'' then (True, r) else if x = CHR ''+'' then (False, r) else (False, s))"

definition exponent_part :: "string \<Rightarrow> int" where
  "exponent_part s =
     (case s of
        [] \<Rightarrow> 0
      | e # r \<Rightarrow>
          if e = CHR ''e'' \<or> e = CHR ''E''
          then (let (neg, d) = split_sign r; ds = takeWhile is_digit d
                in if ds = [] then 0
                   else if neg then - int (digits_value ds) else int (digits_value ds))
          else 0)"

definition parseFloat_decimal :: "string \<Rightarrow> number" where
  "parseFloat_decimal s =
     (let (neg, u) = split_sign (dropWhile is_space s)
      in if startsWith u ''Infinity'' then (if neg then NegInfinity else PosInfinity)
         else
           let ip = takeWhile is_digit u;
               r1 = dropWhile is_digit u;
               (fp, r2) = (case r1 of
                             [] \<Rightarrow> ([], r1)
                           | x # r \<Rightarrow> if x = CHR ''.''
                                      then (takeWhile is_digit r, dropWhile is_digit r)
                                      else ([], r1))
           in if ip = [] \<and> fp = [] then NaN
              else
                let m = of_nat (digits_value (ip @ fp)) * pow10 (exponent_part r2 - int (length fp))
                in Finite (if neg then - m else m))"

subsection \<open>Products\<close>

text \<open>A product is an object with string keys: a map from property names to values.  A
  property that is absent reads as \<open>undefined\<close>, which is falsy.\<close>

type_synonym product = "string \<Rightarrow> jsval option"

definition truthy_prop :: "product \<Rightarrow> string \<Rightarrow> bool" where
  "truthy_prop p k = (case p k of None \<Rightarrow> False | Some v \<Rightarrow> truthy v)"

subsection \<open>parseCSV\<close>

definition normalize_header :: "string \<Rightarrow> string" where
  "normalize_header h = replace_spaces (trim (toLowerCase h))"

text \<open>The typed coercion of one cell under its header.\<close>

definition coerce :: "(string \<Rightarrow> number) \<Rightarrow> string \<Rightarrow> string \<Rightarrow> jsval" where
  "coerce parseFloat header value =
     (if header = ''price'' \<or> header = ''shipping''
      then JNum (if truthy_number (parseFloat value) then parseFloat value else Finite 0)
      else if header = ''sizes'' \<or> header = ''colors'' \<or> header = ''images''
      then JList (filter (\<lambda>v. v \<noteq> []) (map trim (split_on (CHR '','') value)))
      else if header = ''in_stock'' \<or> header = ''featured''
      then JBool (toLowerCase value = ''yes'' \<or> toLowerCase value = ''true'' \<or> value = ''1'')
      else JStr value)"

text \<open>The body of \<open>headers.forEach\<close>, from position \<open>index\<close> on.\<close>

fun forEach_header ::
  "(string \<Rightarrow> number) \<Rightarrow> string list \<Rightarrow> nat \<Rightarrow> string list \<Rightarrow> product \<Rightarrow> product" where
  "forEach_header parseFloat [] index values product = product"
| "forEach_header parseFloat (header # rest) index values product =
     (let value = (if index < length values \<and> values ! index \<noteq> [] then values ! index else [])
      in forEach_header parseFloat rest (index + 1) values
           (product(header \<mapsto> coerce parseFloat header value)))"

text \<open>The loop over the data lines.\<close>

fun parseCSV_loop ::
  "(string \<Rightarrow> number) \<Rightarrow> string list \<Rightarrow> string list \<Rightarrow> product list \<Rightarrow> product list" where
  "parseCSV_loop parseFloat headers [] products = products"
| "parseCSV_loop parseFloat headers (line # rest) products =
     (let values = parseCSVLine line;
          product = forEach_header parseFloat headers 0 values Map.empty
      in if truthy_prop product ''id'' \<and> truthy_prop product ''name'' \<and> truthy_prop product ''price''
         then parseCSV_loop parseFloat headers rest (products @ [product])
         else parseCSV_loop parseFloat headers rest products)"

definition parseCSV :: "(string \<Rightarrow> number) \<Rightarrow> string \<Rightarrow> product list" where
  "parseCSV parseFloat csv =
     (let lines = filter (\<lambda>line. trim line \<noteq> []) (split_on (CHR 0x0A) csv)
      in if length lines < 2 then []
         else
           let headers = map normalize_header (parseCSVLine (lines ! 0))
           in parseCSV_loop parseFloat headers (tl lines) [])"

subsection \<open>The acceptance of a row, stated on the row\<close>

text \<open>
  The cell of a row under a header name: the cell of the last column with that name (a
  later column overwrites an earlier one), empty when the row is too short; \<open>None\<close> when
  no column has the name.
\<close>

definition cell :: "string list \<Rightarrow> string list \<Rightarrow> string \<Rightarrow> string option" where
  "cell headers values name =
     (let columns = filter (\<lambda>i. headers ! i = name) [0..<length headers]
      in if columns = [] then None
         else Some (if last columns < length values then values ! last columns else []))"

definition row_accepted :: "(string \<Rightarrow> number) \<Rightarrow> string list \<Rightarrow> string list \<Rightarrow> bool" where
  "row_accepted parseFloat headers values =
     ((case cell headers values ''id'' of None \<Rightarrow> False | Some v \<Rightarrow> v \<noteq> []) \<and>
      (case cell headers values ''name'' of None \<Rightarrow> False | Some v \<Rightarrow> v \<noteq> []) \<and>
      (case cell headers values ''price'' of
         None \<Rightarrow> False
       | Some v \<Rightarrow> parseFloat v \<noteq> NaN \<and> parseFloat v \<noteq> Finite 0))"

definition feed_lines :: "string \<Rightarrow> string list" where
  "feed_lines csv = filter (\<lambda>line. trim line \<noteq> []) (split_on (CHR 0x0A) csv)"

definition zero_price_feed :: string where
  "zero_price_feed = ''id,name,price'' @ [CHR 0x0A] @ ''A1,Shirt,0''"

definition example_feed :: string where
  "example_feed =
     ''ID, Name ,Price,In Stock'' @ [CHR 0x0A] @
     ''A1,Shirt,450,yes'' @ [CHR 0x0A, CHR 0x0A] @
     ''A2,,300,yes'' @ [CHR 0x0A] @
     ''A3,Cap,0,yes'' @ [CHR 0x0A] @
     ''A4,Hat'' @ [CHR 0x0A] @
     ''A5,Hat,12.5,no''"

subsection \<open>The built-in demo products\<close>

definition getDemoProducts :: "product list" where
  "getDemoProducts =
     [[''id'' \<mapsto> JStr ''tshirt-001'',
       ''name'' \<mapsto> JStr ''Classic Logo Tee'',
       ''description'' \<mapsto> JStr ''Premium cotton t-shirt featuring the iconic Kamel Kross logo. Comfortable fit with high-quality screen printing.'',
       ''price'' \<mapsto> JNum (Finite 450),
       ''shipping'' \<mapsto> JNum (Finite 75),
       ''category'' \<mapsto> JStr ''T-Shirts'',
       ''sizes'' \<mapsto> JList [''S'', ''M'', ''L'', ''XL'', ''XXL''],
       ''colors'' \<mapsto> JList [''Black'', ''White'', ''Navy''],
       ''image'' \<mapsto> JStr ''https://images.unsplash.com/photo-1521572163474-6864f9cf17ab?w=600'',
       ''images'' \<mapsto> JList [''https://images.unsplash.com/photo-1521572163474-6864f9cf17ab?w=600''],
       ''in_stock'' \<mapsto> JBool True,
       ''featured'' \<mapsto> JBool True],
      [''id'' \<mapsto> JStr ''tshirt-002'',
       ''name'' \<mapsto> JStr ''Urban Streetwear Tee'',
       ''description'' \<mapsto> JStr ''Bold streetwear design on soft-touch fabric. Stand out with this statement piece.'',
       ''price'' \<mapsto> JNum (Finite 550),
       ''shipping'' \<mapsto> JNum (Finite 75),
       ''category'' \<mapsto> JStr ''T-Shirts'',
       ''sizes'' \<mapsto> JList [''S'', ''M'', ''L'', ''XL''],
       ''colors'' \<mapsto> JList [''Black'', ''Grey''],
       ''image'' \<mapsto> JStr ''https://images.unsplash.com/photo-1503341504253-dff4815485f1?w=600'',
       ''images'' \<mapsto> JList [''https://images.unsplash.com/photo-1503341504253-dff4815485f1?w=600''],
       ''in_stock'' \<mapsto> JBool True,
       ''featured'' \<mapsto> JBool True],
      [''id'' \<mapsto> JStr ''tshirt-003'',
       ''name'' \<mapsto> JStr ''Limited Edition Graphic Tee'',
       ''description'' \<mapsto> JStr ''Exclusive limited edition design. Premium heavyweight cotton.'',
       ''price'' \<mapsto> JNum (Finite 650),
       ''shipping'' \<mapsto> JNum (Finite 75),
       ''category'' \<mapsto> JStr ''T-Shirts'',
       ''sizes'' \<mapsto> JList [''M'', ''L'', ''XL''],
       ''colors'' \<mapsto> JList [''Black''],
       ''image'' \<mapsto> JStr ''https://images.unsplash.com/photo-1583743814966-8936f5b7be1a?w=600'',
       ''images'' \<mapsto> JList [''https://images.unsplash.com/photo-1583743814966-8936f5b7be1a?w=600''],
       ''in_stock'' \<mapsto> JBool True,
       ''featured'' \<mapsto> JBool True],
      [''id'' \<mapsto> JStr ''cap-001'',
       ''name'' \<mapsto> JStr ''Signature Snapback'',
       ''description'' \<mapsto> JStr ''Adjustable snapback cap with embroidered Kamel Kross logo. One size fits most.'',
       ''price'' \<mapsto> JNum (Finite 350),
       ''shipping'' \<mapsto> JNum (Finite 50),
       ''category'' \<mapsto> JStr ''Caps'',
       ''sizes'' \<mapsto> JList [''One Size''],
       ''colors'' \<mapsto> JList [''Black'', ''Navy'', ''Khaki''],
       ''image'' \<mapsto> JStr ''https://images.unsplash.com/photo-1588850561407-ed78c282e89b?w=600'',
       ''images'' \<mapsto> JList [''https://images.unsplash.com/photo-1588850561407-ed78c282e89b?w=600''],
       ''in_stock'' \<mapsto> JBool True,
       ''featured'' \<mapsto> JBool True],
      [''id'' \<mapsto> JStr ''cap-002'',
       ''name'' \<mapsto> JStr ''Dad Cap - Minimal'',
       ''description'' \<mapsto> JStr ''Relaxed fit dad cap with subtle branding. Curved brim, adjustable strap.'',
       ''price'' \<mapsto> JNum (Finite 299),
       ''shipping'' \<mapsto> JNum (Finite 50),
       ''category'' \<mapsto> JStr ''Caps'',
       ''sizes'' \<mapsto> JList [''One Size''],
       ''colors'' \<mapsto> JList [''Black'', ''White'', ''Olive''],
       ''image'' \<mapsto> JStr ''https://images.unsplash.com/photo-1521369909029-2afed882baee?w=600'',
       ''images'' \<mapsto> JList [''https://images.unsplash.com/photo-1521369909029-2afed882baee?w=600''],
       ''in_stock'' \<mapsto> JBool True,
       ''featured'' \<mapsto> JBool True],
      [''id'' \<mapsto> JStr ''cap-003'',
       ''name'' \<mapsto> JStr ''Trucker Cap'',
       ''description'' \<mapsto> JStr ''Classic trucker style with mesh back. Perfect for sunny days.'',
       ''price'' \<mapsto> JNum (Finite 320),
       ''shipping'' \<mapsto> JNum (Finite 50),
       ''category'' \<mapsto> JStr ''Caps'',
       ''sizes'' \<mapsto> JList [''One Size''],
       ''colors'' \<mapsto> JList [''Black/White'', ''Navy/White''],
       ''image'' \<mapsto> JStr ''https://images.unsplash.com/photo-1534215754734-18e55d13e346?w=600'',
       ''images'' \<mapsto> JList [''https://images.unsplash.com/photo-1534215754734-18e55d13e346?w=600''],
       ''in_stock'' \<mapsto> JBool True,
       ''featured'' \<mapsto> JBool False]]"

subsection \<open>The catalog state and fetch\<close>

text \<open>
  The fields of \<open>Products\<close>, and the number of requests sent to the feed so far, which
  makes the network traffic of \<open>fetch\<close> visible.
\<close>

record products =
  products_items :: "product list"
  categories :: "jsval list"
  loaded :: bool
  requests :: nat

definition Products_initial :: products where
  "Products_initial = \<lparr>products_items = [], categories = [], loaded = False, requests = 0\<rparr>"

text \<open>What a request to the feed comes to: the request is rejected, or a response arrives
  with its \<open>ok\<close> flag and its text, \<open>None\<close> when reading the text fails.\<close>

datatype response = Rejected | Response bool "string option"

text \<open>A set keeps its elements in the order of their first insertion.\<close>

definition set_add :: "'a \<Rightarrow> 'a list \<Rightarrow> 'a list" where
  "set_add x xs = (if x \<in> set xs then xs else xs @ [x])"

definition extractCategories :: "products \<Rightarrow> jsval list" where
  "extractCategories s =
     foldl (\<lambda>cats product.
              case product ''category'' of
                None \<Rightarrow> cats
              | Some v \<Rightarrow> if truthy v then set_add v cats else cats)
       [] (products_items s)"

text \<open>\<open>fetch\<close>, given what the network answers if it is asked.  Every failure inside
  the \<open>try\<close> block ends in the \<open>catch\<close> branch.\<close>

definition fetch :: "(string \<Rightarrow> number) \<Rightarrow> response \<Rightarrow> products \<Rightarrow> product list \<times> products" where
  "fetch parseFloat answer s =
     (if loaded s \<and> length (products_items s) > 0 then (products_items s, s)
      else
        let s0 = s\<lparr>requests := requests s + 1\<rparr>
        in (case answer of
              Response True (Some csvText) \<Rightarrow>
                let s1 = s0\<lparr>products_items := parseCSV parseFloat csvText\<rparr>;
                    s2 = s1\<lparr>categories := extractCategories s1\<rparr>;
                    s3 = s2\<lparr>loaded := True\<rparr>
                in (products_items s3, s3)
            | _ \<Rightarrow>
                let s1 = s0\<lparr>products_items := getDemoProducts\<rparr>;
                    s2 = s1\<lparr>categories := extractCategories s1\<rparr>
                in (products_items s2, s2)))"

text \<open>A session: the calls of \<open>fetch\<close> one after the other, each with the answer the
  network would give it; the lists returned, and the final state.\<close>

fun fetch_all ::
  "(string \<Rightarrow> number) \<Rightarrow> response list \<Rightarrow> products \<Rightarrow> product list list \<times> products" where
  "fetch_all parseFloat [] s = ([], s)"
| "fetch_all parseFloat (answer # answers) s =
     (let (r, s') = fetch parseFloat answer s;
          (rs, s'') = fetch_all parseFloat answers s'
      in (r # rs, s''))"

text \<open>The answers that send \<open>fetch\<close> to its \<open>catch\<close> branch.\<close>

definition failed :: "response \<Rightarrow> bool" where
  "failed answer = (case answer of Response True (Some csv) \<Rightarrow> False | _ \<Rightarrow> True)"

text \<open>The cell at a position of a row, empty when the row is too short.\<close>

definition cellval :: "string list \<Rightarrow> nat \<Rightarrow> string" where
  "cellval values j = (if j < length values then values ! j else [])"


section \<open>Properties of the CSV line parser\<close>

lemma segs_nonempty: "segs q s \<noteq> []"
  by (induction s arbitrary: q) (auto split: list.splits)

lemma loop_segs:
  "parseCSVLine_loop line vs cur q =
     vs @ trim (cur @ unquote (hd (segs q line))) # map (\<lambda>f. trim (unquote f)) (tl (segs q line))"
proof (induction line arbitrary: vs cur q)
  case Nil
  then show ?case by (simp add: unquote_def)
next
  case (Cons c cs)
  obtain f fs where s1: "segs (if c = CHR 0x22 then \<not> q else q) cs = f # fs"
    using segs_nonempty by (cases "segs (if c = CHR 0x22 then \<not> q else q) cs") auto
  show ?case
  proof (cases "c = CHR 0x22")
    case True
    with s1 Cons show ?thesis by (simp add: unquote_def)
  next
    case False
    show ?thesis
    proof (cases "c = CHR '','' \<and> \<not> q")
      case True
      obtain g gs where s2: "segs False cs = g # gs"
        using segs_nonempty by (cases "segs False cs") auto
      with True False Cons show ?thesis by (simp add: unquote_def)
    next
      case F2: False
      with False s1 Cons[of vs "cur @ [c]" q] show ?thesis by (auto simp add: unquote_def)
    qed
  qed
qed

lemma seps_from_False: "seps_from False line = separators line"
  by (simp add: seps_from_def separators_def inside_quotes_def)

lemma upt_Suc_shift: "[0..<Suc n] = 0 # map Suc [0..<n]"
  by (simp add: upt_conv_Cons map_Suc_upt del: upt_Suc)

lemma seps_from_Cons:
  "seps_from q (c # cs) =
     (if c = CHR '','' \<and> \<not> q then [0] else []) @
     map Suc (seps_from (if c = CHR 0x22 then \<not> q else q) cs)"
  unfolding seps_from_def length_Cons upt_Suc_shift
  by (auto simp add: filter_map comp_def intro!: arg_cong[where f="map Suc"] filter_cong)

lemma slice_Suc: "slice (Suc a) (Suc b) (c # cs) = slice a b cs"
  by (simp add: slice_def)

lemma slice_0_Suc: "slice 0 (Suc b) (c # cs) = c # slice 0 b cs"
  by (simp add: slice_def)

lemma zip_map_Suc: "zip (map Suc xs) (map Suc ys) = map (\<lambda>(a, b). (Suc a, Suc b)) (zip xs ys)"
  by (induction xs arbitrary: ys) (auto simp: zip_Cons1 split: list.splits)

lemma spans_from_sep:
  "c = CHR '','' \<Longrightarrow> \<not> q \<Longrightarrow>
     spans_from q (c # cs) = (0, 0) # map (\<lambda>(a, b). (Suc a, Suc b)) (spans_from q cs)"
  using zip_map_Suc[of "0 # map Suc (seps_from q cs)" "seps_from q cs @ [length cs]"]
  by (simp add: spans_from_def seps_from_Cons)

lemma spans_from_other:
  "\<not> (c = CHR '','' \<and> \<not> q) \<Longrightarrow> q' = (if c = CHR 0x22 then \<not> q else q) \<Longrightarrow>
     spans_from q (c # cs) =
       (case spans_from q' cs of (a, b) # r \<Rightarrow> (0, Suc b) # map (\<lambda>(a, b). (Suc a, Suc b)) r | [] \<Rightarrow> [])"
  using zip_map_Suc[of "map Suc (seps_from q' cs)" "tl (seps_from q' cs @ [length cs])"]
  by (cases "seps_from q' cs") (auto simp add: spans_from_def seps_from_Cons)

lemma segs_spans: "segs q line = map (\<lambda>(a, b). slice a b line) (spans_from q line)"
proof (induction line arbitrary: q)
  case Nil
  then show ?case by (simp add: spans_from_def seps_from_def slice_def)
next
  case (Cons c cs)
  show ?case
  proof (cases "c = CHR '','' \<and> \<not> q")
    case True
    then show ?thesis
      by (simp add: spans_from_sep Cons slice_Suc slice_def comp_def case_prod_beta)
  next
    case False
    define q' where "q' = (if c = CHR 0x22 then \<not> q else q)"
    obtain a b r where sp: "spans_from q' cs = (a, b) # r"
      by (cases "spans_from q' cs") (auto simp: spans_from_def)
    have a0: "a = 0" using sp by (cases "seps_from q' cs") (auto simp: spans_from_def)
    from False show ?thesis
      using spans_from_other[OF False q'_def, of cs] Cons[of q'] sp a0
      by (auto simp add: q'_def[symmetric] slice_0_Suc slice_Suc comp_def case_prod_beta)
  qed
qed

lemma parseCSVLine_fields: "parseCSVLine line = fields_spec line"
proof -
  obtain f fs where s: "segs False line = f # fs"
    using segs_nonempty by (cases "segs False line") auto
  have "parseCSVLine line = map (\<lambda>f. trim (unquote f)) (segs False line)"
    by (simp add: parseCSVLine_def loop_segs s)
  also have "\<dots> = fields_spec line"
    by (simp add: segs_spans fields_spec_def spans_def spans_from_def seps_from_False comp_def case_prod_beta)
  finally show ?thesis .
qed

lemma set_trim: "set (trim s) \<subseteq> set s"
proof
  fix x assume "x \<in> set (trim s)"
  then have "x \<in> set (dropWhile is_space (rev (dropWhile is_space s)))"
    by (simp add: trim_def)
  then have "x \<in> set (dropWhile is_space s)"
    using set_dropWhileD by fastforce
  then show "x \<in> set s" by (rule set_dropWhileD)
qed

lemma loop_no_quote:
  "\<forall>v \<in> set vs. CHR 0x22 \<notin> set v \<Longrightarrow> CHR 0x22 \<notin> set cur \<Longrightarrow>
   \<forall>v \<in> set (parseCSVLine_loop line vs cur q). CHR 0x22 \<notin> set v"
proof (induction line arbitrary: vs cur q)
  case Nil
  then show ?case using set_trim[of cur] by auto
next
  case (Cons c cs)
  have t: "CHR 0x22 \<notin> set (trim cur)" using Cons.prems(2) set_trim[of cur] by auto
  show ?case
  proof (cases "c = CHR 0x22")
    case True
    then show ?thesis using Cons.IH[OF Cons.prems] by simp
  next
    case False
    show ?thesis
    proof (cases "c = CHR '','' \<and> \<not> q")
      case True
      have "\<forall>v\<in>set (vs @ [trim cur]). CHR 0x22 \<notin> set v" using Cons.prems(1) t by auto
      from Cons.IH[OF this, of "[]" q] True False show ?thesis by simp
    next
      case F2: False
      have "CHR 0x22 \<notin> set (cur @ [c])" using Cons.prems(2) False by auto
      from Cons.IH[OF Cons.prems(1) this, of q] False F2 show ?thesis by auto
    qed
  qed
qed


lemma last_dropWhile: "dropWhile P xs \<noteq> [] \<Longrightarrow> last (dropWhile P xs) = last xs"
  by (induction xs) (auto split: if_splits)

lemma trim_edges:
  "trim s = [] \<or> (\<not> is_space (hd (trim s)) \<and> \<not> is_space (last (trim s)))"
proof (cases "trim s = []")
  case True
  then show ?thesis by simp
next
  case False
  define d where "d = dropWhile is_space s"
  define r where "r = dropWhile is_space (rev d)"
  have t: "trim s = rev r" by (simp add: trim_def d_def r_def)
  with False have rne: "r \<noteq> []" by simp
  then have dne: "d \<noteq> []" by (auto simp: r_def)
  have "last (trim s) = hd r" using rne by (simp add: t last_rev)
  moreover have "\<not> is_space (hd r)" using rne unfolding r_def by (rule hd_dropWhile)
  moreover have "hd (trim s) = last r" using rne by (simp add: t hd_rev)
  moreover have "last r = last (rev d)" using rne unfolding r_def by (rule last_dropWhile)
  moreover have "last (rev d) = hd d" using dne by (simp add: last_rev)
  moreover have "\<not> is_space (hd d)" using dne unfolding d_def by (rule hd_dropWhile)
  ultimately show ?thesis by simp
qed

lemma trim_decomp:
  "\<exists>pre suf. s = pre @ trim s @ suf \<and> list_all is_space pre \<and> list_all is_space suf"
proof -
  define d where "d = dropWhile is_space s"
  have 1: "s = takeWhile is_space s @ d" by (simp add: d_def)
  have "rev (dropWhile is_space (rev d)) @ rev (takeWhile is_space (rev d)) =
      rev (takeWhile is_space (rev d) @ dropWhile is_space (rev d))"
    by (simp only: rev_append)
  also have "\<dots> = rev (rev d)" by (simp only: takeWhile_dropWhile_id)
  finally have "rev (dropWhile is_space (rev d)) @ rev (takeWhile is_space (rev d)) = d"
    by simp
  then have 2: "d = trim s @ rev (takeWhile is_space (rev d))"
    by (simp add: trim_def d_def)
  have p: "list_all is_space (takeWhile is_space s)"
    by (simp add: list_all_iff) (meson set_takeWhileD)
  have q: "list_all is_space (rev (takeWhile is_space (rev d)))"
    by (simp add: list_all_iff) (meson set_takeWhileD)
  from 1 2 have "s = takeWhile is_space s @ trim s @ rev (takeWhile is_space (rev d))" by simp
  with p q show ?thesis by blast
qed

lemma fields_trimmed:
  "list_all (\<lambda>f. f = [] \<or> (\<not> is_space (hd f) \<and> \<not> is_space (last f))) (parseCSVLine line)"
  by (simp add: parseCSVLine_fields fields_spec_def list_all_iff trim_edges case_prod_beta)

lemma fields_of_pieces:
  "list_all2 (\<lambda>f piece. \<exists>pre suf. unquote piece = pre @ f @ suf \<and>
       list_all is_space pre \<and> list_all is_space suf)
     (parseCSVLine line) (pieces line)"
  by (simp add: parseCSVLine_fields fields_spec_def pieces_def list_all2_map1 list_all2_map2
      list_all2_same trim_decomp case_prod_beta)

text \<open>
  C4: the line parser splits only at commas that lie outside quotes, every quote character
  toggles the quote state, and every field is trimmed.  The result is the list of pieces
  between the commas preceded by an even number of quote characters, each with its quote
  characters removed and its white space trimmed: no field begins or ends with white space,
  and every field is its piece without the quote characters, less a run of white space at
  the front and one at the back.  The line \<open>a,"b,c",d\<close> has exactly the three fields
  \<open>a\<close>, \<open>b,c\<close> and \<open>d\<close>, and white space around the fields and next to the quotes is
  dropped while white space inside a field stays.
\<close>

theorem parseCSVLine_splits_outside_quotes:
  "parseCSVLine line = fields_spec line \<and>
   list_all (\<lambda>f. f = [] \<or> (\<not> is_space (hd f) \<and> \<not> is_space (last f))) (parseCSVLine line) \<and>
   list_all2 (\<lambda>f piece. \<exists>pre suf. unquote piece = pre @ f @ suf \<and>
       list_all is_space pre \<and> list_all is_space suf)
     (parseCSVLine line) (pieces line) \<and>
   parseCSVLine ''a,\"b,c\",d'' = [''a'', ''b,c'', ''d''] \<and>
   parseCSVLine ('' a ,'' @ [CHR 0x09] @ ''\" b , c \" , d  '') = [''a'', ''b , c'', ''d'']"
proof (intro conjI)
  show "parseCSVLine line = fields_spec line" by (rule parseCSVLine_fields)
  show "list_all (\<lambda>f. f = [] \<or> (\<not> is_space (hd f) \<and> \<not> is_space (last f)))
      (parseCSVLine line)"
    by (rule fields_trimmed)
  show "list_all2 (\<lambda>f piece. \<exists>pre suf. unquote piece = pre @ f @ suf \<and>
       list_all is_space pre \<and> list_all is_space suf)
     (parseCSVLine line) (pieces line)"
    by (rule fields_of_pieces)
  show "parseCSVLine ''a,\"b,c\",d'' = [''a'', ''b,c'', ''d'']"
    by (simp add: parseCSVLine_def trim_def is_space_def)
  show "parseCSVLine ('' a ,'' @ [CHR 0x09] @ ''\" b , c \" , d  '') = [''a'', ''b , c'', ''d'']"
    by (simp add: parseCSVLine_def trim_def is_space_def)
qed

text \<open>
  C10: no field returned by the line parser contains a double-quote character: the quote
  character is not among the characters of the returned fields.
\<close>

theorem parseCSVLine_fields_have_no_quote:
  "CHR 0x22 \<notin> set (concat (parseCSVLine line))"
  using loop_no_quote[of "[]" "[]" line False] by (simp add: parseCSVLine_def)

section \<open>Properties of the image URL resolver\<close>

lemma startsWith_take: "startsWith s p \<longleftrightarrow> take (length p) s = p"
  by (induction s p rule: startsWith.induct) auto

lemma startsWith_append: "startsWith (p @ s) p"
  by (simp add: startsWith_take)

lemma includes_str_append: "startsWith s sub \<Longrightarrow> includes_str (pre @ s) sub"
  by (induction pre) (cases s; auto)+

lemma startsWith_shift: "length p \<le> length xs \<Longrightarrow> startsWith (xs @ ys) p = startsWith xs p"
  by (simp add: startsWith_take)

lemma capture_until_run:
  "g \<noteq> [] \<Longrightarrow> x \<notin> set g \<Longrightarrow> capture_until x (g @ x # rest) = Some g"
proof -
  assume g: "g \<noteq> []" "x \<notin> set g"
  then have "takeWhile (\<lambda>c. c \<noteq> x) (g @ x # rest) = g"
    by (auto simp add: takeWhile_tail takeWhile_eq_all_conv)
  with g(1) show ?thesis by (simp add: capture_until_def)
qed

lemma regex_search_first:
  assumes pre: "\<And>s. \<not> startsWith s p \<Longrightarrow> m s = None"
    and len: "length p \<le> Suc (length q)"
    and no: "\<not> includes_str (pre @ q) p"
    and hit: "regex_search m (q @ t) = r"
  shows "regex_search m (pre @ q @ t) = r"
  using no
proof (induction pre)
  case Nil
  then show ?case using hit by simp
next
  case (Cons c cs)
  have n1: "\<not> startsWith (c # cs @ q) p" using Cons.prems by simp
  have "startsWith ((c # cs @ q) @ t) p = startsWith (c # cs @ q) p"
    by (rule startsWith_shift) (use len in simp)
  with n1 have "m (c # cs @ q @ t) = None" by (simp add: pre)
  moreover have "\<not> includes_str (cs @ q) p" using Cons.prems by simp
  ultimately show ?case using Cons.IH by simp
qed

lemma fileMatch_first:
  assumes "\<not> includes_str (pre @ ''/file/d'') ''/file/d/''"
    and "g \<noteq> []" and "CHR ''/'' \<notin> set g"
  shows "regex_search fileMatch_at (pre @ ''/file/d/'' @ g @ ''/'' @ rest) = Some g"
proof -
  have hit: "regex_search fileMatch_at (''/file/d'' @ (''/'' @ g @ ''/'' @ rest)) = Some g"
    using capture_until_run[OF assms(2,3), of rest] by (simp add: fileMatch_at_def)
  have "regex_search fileMatch_at (pre @ ''/file/d'' @ (''/'' @ g @ ''/'' @ rest)) = Some g"
    by (rule regex_search_first[OF _ _ assms(1) hit]) (simp_all add: fileMatch_at_def)
  then show ?thesis by simp
qed

lemma capture_until_nonempty: "capture_until x s = Some g \<Longrightarrow> g \<noteq> []"
  by (auto simp: capture_until_def Let_def split: if_splits)

lemma regex_search_nonempty:
  assumes "\<And>s g. m s = Some g \<Longrightarrow> g \<noteq> []"
  shows "regex_search m s = Some g \<Longrightarrow> g \<noteq> []"
  by (induction s) (auto split: option.splits dest: assms)

lemma fileMatch_nonempty: "fileMatch url = Some g \<Longrightarrow> g \<noteq> []"
  unfolding fileMatch_def
  by (erule regex_search_nonempty[rotated])
     (auto simp: fileMatch_at_def split: if_splits dest: capture_until_nonempty)

lemma openMatch_nonempty: "openMatch url = Some g \<Longrightarrow> g \<noteq> []"
  unfolding openMatch_def
  by (erule regex_search_nonempty[rotated])
     (auto simp: openMatch_at_def split: if_splits list.splits dest: capture_until_nonempty)

lemma dot_star_id_nonempty: "dot_star_id s = Some g \<Longrightarrow> g \<noteq> []"
  by (induction s arbitrary: g)
     (auto simp: id_at_def split: if_splits option.splits dest: capture_until_nonempty)

lemma ucMatch_nonempty: "ucMatch url = Some g \<Longrightarrow> g \<noteq> []"
  unfolding ucMatch_def
  by (erule regex_search_nonempty[rotated])
     (auto simp: ucMatch_at_def split: if_splits dest: dot_star_id_nonempty)

lemma includes_nonempty: "includes_str url ''drive.google.com'' \<Longrightarrow> url \<noteq> []"
  by auto

lemma convert_precedence:
  assumes "includes_str url ''drive.google.com''"
  shows "convertGoogleDriveUrl url =
     (case ucMatch url of
        Some g \<Rightarrow> thumbnail g
      | None \<Rightarrow>
          (case openMatch url of
             Some g \<Rightarrow> thumbnail g
           | None \<Rightarrow> (case fileMatch url of Some g \<Rightarrow> thumbnail g | None \<Rightarrow> url)))"
  using assms includes_nonempty[OF assms]
  by (auto simp add: convertGoogleDriveUrl_def split: option.splits
      dest: ucMatch_nonempty openMatch_nonempty fileMatch_nonempty)

lemmas url_simps = fileMatch_def openMatch_def ucMatch_def fileMatch_at_def
     openMatch_at_def ucMatch_at_def capture_until_def thumbnail_def id_at_def is_line_terminator_def

text \<open>
  C7 (as amended): the resolver returns its argument unchanged when the argument does not
  contain \<open>drive.google.com\<close> and when none of the three patterns yields an identifier;
  and for a share link \<open>pre/file/d/ID/rest\<close> whose first \<open>/file/d/\<close> is the one shown, where
  neither the \<open>id=\<close> parameter pattern nor the \<open>/uc?\<close> pattern matches, it returns the
  thumbnail URL of width 800 with exactly the identifier \<open>ID\<close>.  When a later pattern also
  matches, its identifier takes precedence: for every share link the identifier of the
  \<open>/uc?\<close> pattern is embedded when that pattern matches, else the one of the \<open>id=\<close>
  pattern when that matches, else the one of the path pattern.  The function is total: no
  path raises.
\<close>

theorem convertGoogleDriveUrl_resolves:
  "(\<not> includes_str url ''drive.google.com'' \<longrightarrow> convertGoogleDriveUrl url = url) \<and>
   (fileMatch url = None \<and> openMatch url = None \<and> ucMatch url = None \<longrightarrow>
      convertGoogleDriveUrl url = url) \<and>
   (includes_str url ''drive.google.com'' \<and>
    url = pre @ ''/file/d/'' @ g @ ''/'' @ rest \<and> g \<noteq> [] \<and> CHR ''/'' \<notin> set g \<and>
    \<not> includes_str (pre @ ''/file/d'') ''/file/d/'' \<and>
    openMatch url = None \<and> ucMatch url = None \<longrightarrow>
      convertGoogleDriveUrl url = thumbnail g) \<and>
   (includes_str url ''drive.google.com'' \<and> ucMatch url = Some u \<longrightarrow>
      convertGoogleDriveUrl url = thumbnail u) \<and>
   (includes_str url ''drive.google.com'' \<and> ucMatch url = None \<and> openMatch url = Some u \<longrightarrow>
      convertGoogleDriveUrl url = thumbnail u) \<and>
   (includes_str url ''drive.google.com'' \<and> ucMatch url = None \<and> openMatch url = None \<and>
    fileMatch url = Some u \<longrightarrow>
      convertGoogleDriveUrl url = thumbnail u)"
proof (intro conjI impI)
  show "convertGoogleDriveUrl url = url" if "\<not> includes_str url ''drive.google.com''"
    using that by (simp add: convertGoogleDriveUrl_def)
  show "convertGoogleDriveUrl url = url"
    if "fileMatch url = None \<and> openMatch url = None \<and> ucMatch url = None"
    using that by (simp add: convertGoogleDriveUrl_def)
  show "convertGoogleDriveUrl url = thumbnail g"
    if h: "includes_str url ''drive.google.com'' \<and>
      url = pre @ ''/file/d/'' @ g @ ''/'' @ rest \<and> g \<noteq> [] \<and> CHR ''/'' \<notin> set g \<and>
      \<not> includes_str (pre @ ''/file/d'') ''/file/d/'' \<and>
      openMatch url = None \<and> ucMatch url = None"
  proof -
    from h have u: "url = pre @ ''/file/d/'' @ g @ ''/'' @ rest" by blast
    from h have g: "g \<noteq> []" "CHR ''/'' \<notin> set g" by blast+
    from h have first: "\<not> includes_str (pre @ ''/file/d'') ''/file/d/''" by blast
    from h have inc: "includes_str url ''drive.google.com''" by blast
    from h have o: "openMatch url = None" "ucMatch url = None" by blast+
    have f: "fileMatch url = Some g"
      unfolding fileMatch_def u by (rule fileMatch_first[OF first g])
    have ne: "url \<noteq> []" unfolding u by simp
    show ?thesis using f ne inc o g(1) by (simp add: convertGoogleDriveUrl_def)
  qed
  show "convertGoogleDriveUrl url = thumbnail u"
    if "includes_str url ''drive.google.com'' \<and> ucMatch url = Some u"
    using that convert_precedence[of url] by simp
  show "convertGoogleDriveUrl url = thumbnail u"
    if "includes_str url ''drive.google.com'' \<and> ucMatch url = None \<and> openMatch url = Some u"
    using that convert_precedence[of url] by simp
  show "convertGoogleDriveUrl url = thumbnail u"
    if "includes_str url ''drive.google.com'' \<and> ucMatch url = None \<and> openMatch url = None \<and>
      fileMatch url = Some u"
    using that convert_precedence[of url] by simp
qed

theorem convertGoogleDriveUrl_resolves_witness:
  "convertGoogleDriveUrl ''https://example.com/file/d/ABC123/view'' =
      ''https://example.com/file/d/ABC123/view'' \<and>
   convertGoogleDriveUrl ''https://drive.google.com/drive/folders/ABC123'' =
      ''https://drive.google.com/drive/folders/ABC123'' \<and>
   convertGoogleDriveUrl ''https://drive.google.com/file/d/ABC123/view'' =
      ''https://drive.google.com/thumbnail?id=ABC123&sz=w800'' \<and>
   convertGoogleDriveUrl ''https://drive.google.com/file/d/F1/uc?x=1&id=A&bid=B'' =
      ''https://drive.google.com/thumbnail?id=B&sz=w800'' \<and>
   convertGoogleDriveUrl ''https://drive.google.com/file/d/F1/open?id=XYZ&a=b'' =
      ''https://drive.google.com/thumbnail?id=XYZ&sz=w800'' \<and>
   convertGoogleDriveUrl ''https://drive.google.com/file/d/ABC123?usp=sharing'' =
      ''https://drive.google.com/thumbnail?id=ABC123?usp=sharing&sz=w800''"
proof -
  have a: "\<not> includes_str ''https://example.com/file/d/ABC123/view'' ''drive.google.com''"
    by simp
  let ?u = "''https://drive.google.com/drive/folders/ABC123''"
  have b: "fileMatch ?u = None \<and> openMatch ?u = None \<and> ucMatch ?u = None"
    by (simp add: url_simps)
  let ?v = "''https://drive.google.com/file/d/ABC123/view''"
  have c: "includes_str ?v ''drive.google.com'' \<and>
    ?v = ''https://drive.google.com'' @ ''/file/d/'' @ ''ABC123'' @ ''/'' @ ''view'' \<and>
    ''ABC123'' \<noteq> [] \<and> CHR ''/'' \<notin> set ''ABC123'' \<and>
    \<not> includes_str (''https://drive.google.com'' @ ''/file/d'') ''/file/d/'' \<and>
    openMatch ?v = None \<and> ucMatch ?v = None"
    by (simp add: url_simps)
  let ?w = "''https://drive.google.com/file/d/F1/uc?x=1&id=A&bid=B''"
  have d: "includes_str ?w ''drive.google.com'' \<and> ucMatch ?w = Some ''B''"
    by (simp add: url_simps)
  let ?x = "''https://drive.google.com/file/d/F1/open?id=XYZ&a=b''"
  have e: "includes_str ?x ''drive.google.com'' \<and> ucMatch ?x = None \<and> openMatch ?x = Some ''XYZ''"
    by (simp add: url_simps)
  let ?y = "''https://drive.google.com/file/d/ABC123?usp=sharing''"
  have f: "includes_str ?y ''drive.google.com'' \<and> ucMatch ?y = None \<and> openMatch ?y = None \<and>
      fileMatch ?y = Some ''ABC123?usp=sharing''"
    by (simp add: url_simps)
  from convertGoogleDriveUrl_resolves[of "''https://example.com/file/d/ABC123/view''"] a
  have 1: "convertGoogleDriveUrl ''https://example.com/file/d/ABC123/view'' =
      ''https://example.com/file/d/ABC123/view''"
    by blast
  from convertGoogleDriveUrl_resolves[of ?u] b have 2: "convertGoogleDriveUrl ?u = ?u" by blast
  from convertGoogleDriveUrl_resolves[of ?v "''https://drive.google.com''" "''ABC123''" "''view''"] c
  have 3: "convertGoogleDriveUrl ?v = thumbnail ''ABC123''" by blast
  from convertGoogleDriveUrl_resolves[of ?w _ _ _ "''B''"] d
  have 4: "convertGoogleDriveUrl ?w = thumbnail ''B''" by blast
  from convertGoogleDriveUrl_resolves[of ?x _ _ _ "''XYZ''"] e
  have 5: "convertGoogleDriveUrl ?x = thumbnail ''XYZ''" by blast
  from convertGoogleDriveUrl_resolves[of ?y _ _ _ "''ABC123?usp=sharing''"] f
  have 6: "convertGoogleDriveUrl ?y = thumbnail ''ABC123?usp=sharing''" by blast
  from 1 2 3 4 5 6 show ?thesis by (simp add: thumbnail_def)
qed

text \<open>
  C7 as stated fails: a share link of the path-embedded shape that also carries an
  \<open>id=\<close> parameter resolves to the identifier of the parameter, not to the one in the
  path.
\<close>

theorem convertGoogleDriveUrl_path_id_overridden:
  "convertGoogleDriveUrl ''https://drive.google.com/file/d/ABC123/view?id=XYZ'' = thumbnail ''XYZ'' \<and>
   thumbnail ''XYZ'' \<noteq> thumbnail ''ABC123''"
  by (simp add: convertGoogleDriveUrl_def url_simps)

section \<open>Properties of binary64 rounding\<close>

lemma bit_length_bounds: "0 < n \<Longrightarrow> 2 ^ (bit_length n - 1) \<le> n \<and> n < 2 ^ bit_length n"
proof (induction n rule: bit_length.induct)
  case (1 n)
  show ?case
  proof (cases "n div 2 = 0")
    case True
    with 1(2) have "n = 1" by (cases n) auto
    then show ?thesis by (simp add: bit_length.simps)
  next
    case False
    then have pos: "0 < n div 2" by simp
    from 1(2) have n0: "n \<noteq> 0" by simp
    from 1(1)[OF n0 pos] have ih: "2 ^ (bit_length (n div 2) - 1) \<le> n div 2"
      "n div 2 < 2 ^ bit_length (n div 2)" by auto
    have bl: "bit_length n = Suc (bit_length (n div 2))" using n0 by (subst bit_length.simps) simp
    have blpos: "0 < bit_length (n div 2)" using pos by (subst bit_length.simps) simp
    have "2 ^ (bit_length n - 1) = 2 * 2 ^ (bit_length (n div 2) - 1)"
      using blpos by (cases "bit_length (n div 2)") (simp_all add: bl)
    also have "\<dots> \<le> 2 * (n div 2)" using ih(1) by simp
    also have "\<dots> \<le> n" by simp
    finally have lo: "2 ^ (bit_length n - 1) \<le> n" .
    have "n < 2 * (n div 2) + 2" by presburger
    also have "\<dots> \<le> 2 * 2 ^ bit_length (n div 2)" using ih(2) by simp
    finally have hi: "n < 2 ^ bit_length n" by (simp add: bl)
    from lo hi show ?thesis by simp
  qed
qed


lemma floor_log2_bounds:
  assumes "0 < x"
  shows "pow2 (floor_log2 x) \<le> x \<and> x < pow2 (floor_log2 x + 1)"
proof (cases "1 \<le> x")
  case True
  define n where "n = nat \<lfloor>x\<rfloor>"
  have fpos: "1 \<le> \<lfloor>x\<rfloor>" using True by simp
  then have npos: "0 < n" by (simp add: n_def)
  have nf: "int n = \<lfloor>x\<rfloor>" using fpos by (simp add: n_def)
  from bit_length_bounds[OF npos] have b: "2 ^ (bit_length n - 1) \<le> n" "n < 2 ^ bit_length n"
    by auto
  have blpos: "0 < bit_length n" using npos by (subst bit_length.simps) simp
  have fl: "floor_log2 x = int (bit_length n - 1)"
    using True blpos by (simp add: floor_log2_def n_def)
  have "(of_nat (2 ^ (bit_length n - 1)) :: rat) \<le> of_nat n" using b(1) by (simp only: of_nat_le_iff)
  also have "(of_nat n :: rat) = of_int \<lfloor>x\<rfloor>" using nf by (metis of_int_of_nat_eq)
  also have "\<dots> \<le> x" by (rule of_int_floor_le)
  finally have lo: "pow2 (floor_log2 x) \<le> x" by (simp add: fl pow2_def)
  have "x < of_int (\<lfloor>x\<rfloor> + 1)" by (rule floor_correct[THEN conjunct2])
  also have "\<dots> = of_nat (n + 1)" using nf by (metis of_int_of_nat_eq of_nat_Suc Suc_eq_plus1 of_int_add of_int_1 of_nat_add of_nat_1)
  also have "\<dots> \<le> of_nat (2 ^ bit_length n)" using b(2) by (simp only: of_nat_le_iff)
  finally have "x < 2 ^ bit_length n" by simp
  moreover have "floor_log2 x + 1 = int (bit_length n)" using blpos by (simp add: fl)
  ultimately have hi: "x < pow2 (floor_log2 x + 1)" by (simp add: pow2_def)
  from lo hi show ?thesis by simp
next
  case False
  then have x1: "x < 1" by simp
  define y where "y = 1 / x"
  have y1: "1 < y" using assms x1 by (simp add: y_def)
  define k where "k = nat (\<lceil>y\<rceil> - 1)"
  have c2: "2 \<le> \<lceil>y\<rceil>" using y1 by (simp add: le_ceiling_iff)
  then have kpos: "0 < k" by (simp add: k_def)
  have kc: "int k = \<lceil>y\<rceil> - 1" using c2 by (simp add: k_def)
  from bit_length_bounds[OF kpos] have b: "2 ^ (bit_length k - 1) \<le> k" "k < 2 ^ bit_length k"
    by auto
  have blpos: "0 < bit_length k" using kpos by (subst bit_length.simps) simp
  have fl: "floor_log2 x = - int (bit_length k)"
    using False by (simp add: floor_log2_def k_def y_def)
  have ky: "of_nat k < y"
  proof -
    have "(of_nat k :: rat) = of_int (\<lceil>y\<rceil> - 1)" using kc by (metis of_int_of_nat_eq)
    also have "\<dots> < y" using ceiling_correct[of y] by simp
    finally show ?thesis .
  qed
  have yk: "y \<le> of_nat (k + 1)"
  proof -
    have "y \<le> of_int \<lceil>y\<rceil>" by (rule le_of_int_ceiling)
    also have "\<dots> = of_nat (k + 1)" using kc
      by (metis add.commute diff_add_cancel of_int_of_nat_eq of_nat_Suc Suc_eq_plus1 of_nat_1 of_nat_add add.commute)
    finally show ?thesis .
  qed
  have "y \<le> of_nat (2 ^ bit_length k)"
  proof -
    have "k + 1 \<le> 2 ^ bit_length k" using b(2) by simp
    then have "(of_nat (k + 1) :: rat) \<le> of_nat (2 ^ bit_length k)" by (simp only: of_nat_le_iff)
    with yk show ?thesis by simp
  qed
  then have yhi: "y \<le> 2 ^ bit_length k" by simp
  have "(of_nat (2 ^ (bit_length k - 1)) :: rat) \<le> of_nat k" using b(1) by (simp only: of_nat_le_iff)
  then have "(2::rat) ^ (bit_length k - 1) \<le> of_nat k" by simp
  with ky have ylo: "2 ^ (bit_length k - 1) < y" by linarith
  have xy: "x = 1 / y" using assms by (simp add: y_def)
  have ypos: "0 < y" using y1 by simp
  have pl: "pow2 (floor_log2 x) = 1 / 2 ^ bit_length k"
    using blpos by (simp add: fl pow2_def)
  have ph: "pow2 (floor_log2 x + 1) = 1 / 2 ^ (bit_length k - 1)"
    using blpos by (cases "bit_length k") (auto simp add: fl pow2_def nat_diff_distrib')
  have "1 / 2 ^ bit_length k \<le> 1 / y" using yhi ypos by (simp add: frac_le)
  then have lo: "pow2 (floor_log2 x) \<le> x" unfolding pl using xy by simp
  have "1 / y < 1 / 2 ^ (bit_length k - 1)" using ylo by (simp add: frac_less2)
  then have hi: "x < pow2 (floor_log2 x + 1)" unfolding ph using xy by simp
  from lo hi show ?thesis by simp
qed


lemma pow2_pos: "0 < pow2 k"
  by (simp add: pow2_def)













lemma round_half_even_near: "\<bar>of_int (round_half_even x) - x\<bar> \<le> 1 / 2"
proof -
  have "of_int \<lfloor>x\<rfloor> \<le> x" "x < of_int \<lfloor>x\<rfloor> + 1" by linarith+
  then show ?thesis by (auto simp add: round_half_even_def Let_def abs_le_iff)
qed


section \<open>Properties of the cart store\<close>

lemma save_items: "items (save c) = items c"
  by (simp add: save_def setItem_def updateCartCount_def)

lemma toast_items: "items (toast m t c) = items c"
  by (simp add: toast_def)

lemma remove_item_in:
  "0 \<le> i \<Longrightarrow> i < int (length (items c)) \<Longrightarrow>
   items (remove_item i c) = take (nat i) (items c) @ drop (nat i + 1) (items c)"
  by (simp add: remove_item_def Let_def toast_items save_items)

lemma remove_item_out:
  "i < 0 \<or> int (length (items c)) \<le> i \<Longrightarrow> remove_item i c = c"
  by (auto simp add: remove_item_def)














































text \<open>
  C6: \<open>updateQuantity i q\<close> removes line \<open>i\<close> when \<open>i\<close> is in bounds and
  \<open>q \<le> 0\<close>, overwrites the quantity of line \<open>i\<close> with \<open>q\<close> when \<open>i\<close> is in bounds and
  \<open>0 < q\<close>, and returns the whole state as it was when \<open>i\<close> is out of bounds; so does
  \<open>remove\<close> for an index out of bounds.  No path of either operation raises.
\<close>

theorem updateQuantity_cases:
  "(0 \<le> i \<and> i < int (length (items c)) \<and> q \<le> 0 \<longrightarrow>
      items (updateQuantity i q c) = take (nat i) (items c) @ drop (nat i + 1) (items c)) \<and>
   (0 \<le> i \<and> i < int (length (items c)) \<and> 0 < q \<longrightarrow>
      items (updateQuantity i q c) =
        (items c)[nat i := (items c ! nat i)\<lparr>item_quantity := q\<rparr>]) \<and>
   (i < 0 \<or> int (length (items c)) \<le> i \<longrightarrow> updateQuantity i q c = c) \<and>
   (i < 0 \<or> int (length (items c)) \<le> i \<longrightarrow> remove_item i c = c)"
  by (auto simp add: updateQuantity_def remove_item_in remove_item_out save_items)

theorem updateQuantity_cases_witness:
  "items (updateQuantity 0 0 example_cart) = [example_lines ! 1] \<and>
   items (updateQuantity 1 7 example_cart) =
     [example_lines ! 0, (example_lines ! 1)\<lparr>item_quantity := 7\<rparr>] \<and>
   updateQuantity 2 7 example_cart = example_cart \<and>
   remove_item (- 1) example_cart = example_cart"
proof -
  have len: "length (items example_cart) = 2"
    by (simp add: example_cart_def example_lines_def)
  have its: "items example_cart = example_lines"
    by (simp add: example_cart_def)
  have a: "items (updateQuantity 0 0 example_cart) = [example_lines ! 1]"
    using updateQuantity_cases[of 0 example_cart 0] len
    by (simp add: its) (simp add: example_lines_def)
  have b: "items (updateQuantity 1 7 example_cart) =
      [example_lines ! 0, (example_lines ! 1)\<lparr>item_quantity := 7\<rparr>]"
    using updateQuantity_cases[of 1 example_cart 7] len
    by (simp add: its) (simp add: example_lines_def)
  have c: "updateQuantity 2 7 example_cart = example_cart"
    using updateQuantity_cases[of 2 example_cart 7] len by simp
  have d: "remove_item (- 1) example_cart = example_cart"
    using updateQuantity_cases[of "- 1" example_cart 1] by simp
  from a b c d show ?thesis by simp
qed



text \<open>
  C9: building the order payload returns the cart as it was, and the payload has one item
  per cart line, in order, whose properties are exactly id, name, size, color, quantity and
  price with the values of the line; it has no shipping and no image property.
\<close>

theorem prepareOrderData_snapshot:
  "snd (prepareOrderData customerInfo now c) = c \<and>
   list_all2
     (\<lambda>item obj.
        map fst obj = [''id'', ''name'', ''size'', ''color'', ''quantity'', ''price''] \<and>
        map_of obj ''id'' = Some (JStr (item_id item)) \<and>
        map_of obj ''name'' = Some (JStr (item_name item)) \<and>
        map_of obj ''size'' = Some (JStr (item_size item)) \<and>
        map_of obj ''color'' = Some (JStr (item_color item)) \<and>
        map_of obj ''quantity'' = Some (JNum (Finite (item_quantity item))) \<and>
        map_of obj ''price'' = Some (JNum (Finite (item_price item))) \<and>
        map_of obj ''shipping'' = None \<and>
        map_of obj ''image'' = None)
     (items c) (order_items (fst (prepareOrderData customerInfo now c)))"
  by (simp add: prepareOrderData_def list_all2_map2 list_all2_same)

text \<open>
  C8: when the storage accepts the write, saving a cart and then loading from the same key,
  in the same page or in a fresh one that shares the storage, gives back the saved list of
  line items.
\<close>

theorem save_then_load:
  assumes "\<not> denied (local_storage c)" and "\<not> quota_exceeded (local_storage c)"
  shows "items (load (save c)) = items c \<and>
         items (load (c0\<lparr>local_storage := local_storage (save c)\<rparr>)) = items c"
  using assms
  by (simp add: load_def save_def setItem_def getItem_def updateCartCount_def JSON_stringify_def)

theorem save_then_load_witness:
  "\<not> denied (local_storage example_cart) \<and> \<not> quota_exceeded (local_storage example_cart) \<and>
   length (items example_cart) = 2 \<and>
   items (load (empty_cart\<lparr>local_storage := local_storage (save example_cart)\<rparr>)) = example_lines"
proof -
  have d: "\<not> denied (local_storage example_cart)"
    by (simp add: example_cart_def empty_cart_def fresh_storage_def)
  have q: "\<not> quota_exceeded (local_storage example_cart)"
    by (simp add: example_cart_def empty_cart_def fresh_storage_def)
  have l: "length (items example_cart) = 2"
    by (simp add: example_cart_def example_lines_def)
  from save_then_load[OF d q, of empty_cart] d q l show ?thesis
    by (simp add: example_cart_def)
qed

section \<open>Properties of the catalog loader\<close>

lemma columns_Cons:
  "filter (\<lambda>i. (h # hs) ! i = name) [0..<length (h # hs)] =
     (if h = name then [0] else []) @ map Suc (filter (\<lambda>i. hs ! i = name) [0..<length hs])"
  unfolding length_Cons upt_Suc_shift by (simp add: filter_map comp_def)

lemma forEach_header_lookup:
  "forEach_header pf hs k values p name =
     (let columns = filter (\<lambda>i. hs ! i = name) [0..<length hs]
      in if columns = [] then p name
         else Some (coerce pf name (cellval values (k + last columns))))"
proof (induction hs arbitrary: k p)
  case Nil
  then show ?case by simp
next
  case (Cons h hs)
  let ?cols = "filter (\<lambda>i. hs ! i = name) [0..<length hs]"
  show ?case
  proof (cases "?cols = []")
    case True
    then show ?thesis
      unfolding columns_Cons forEach_header.simps Let_def Cons.IH
      by (auto simp add: cellval_def)
  next
    case False
    then show ?thesis
      unfolding columns_Cons forEach_header.simps Let_def Cons.IH
      by (simp add: last_map)
  qed
qed

lemma truthy_prop_row:
  "truthy_prop (forEach_header pf hs 0 values Map.empty) name =
     (case cell hs values name of None \<Rightarrow> False | Some v \<Rightarrow> truthy (coerce pf name v))"
  by (simp add: truthy_prop_def forEach_header_lookup cell_def Let_def cellval_def)

lemma accepted_row:
  "(truthy_prop (forEach_header pf hs 0 values Map.empty) ''id'' \<and>
    truthy_prop (forEach_header pf hs 0 values Map.empty) ''name'' \<and>
    truthy_prop (forEach_header pf hs 0 values Map.empty) ''price'') = row_accepted pf hs values"
  unfolding truthy_prop_row row_accepted_def
  by (simp add: coerce_def truthy_number_def split: option.splits)

lemma parseCSV_loop_filter:
  "parseCSV_loop pf hs lines products =
     products @ map (\<lambda>values. forEach_header pf hs 0 values Map.empty)
                  (filter (row_accepted pf hs) (map parseCSVLine lines))"
proof (induction lines arbitrary: products)
  case Nil
  then show ?case by simp
next
  case (Cons line rest)
  show ?case
    unfolding parseCSV_loop.simps Let_def accepted_row
    by (simp add: Cons.IH)
qed

lemma parseCSV_filter:
  "parseCSV pf csv =
     (if length (feed_lines csv) < 2 then []
      else map (\<lambda>values. forEach_header pf
                  (map normalize_header (parseCSVLine (hd (feed_lines csv)))) 0 values Map.empty)
             (filter (row_accepted pf (map normalize_header (parseCSVLine (hd (feed_lines csv)))))
                (map parseCSVLine (tl (feed_lines csv)))))"
proof (cases "length (feed_lines csv) < 2")
  case True
  then show ?thesis by (simp add: parseCSV_def feed_lines_def)
next
  case False
  then have "feed_lines csv ! 0 = hd (feed_lines csv)"
    by (cases "feed_lines csv") auto
  with False show ?thesis
    by (simp add: parseCSV_def feed_lines_def[symmetric] Let_def parseCSV_loop_filter)
qed

lemmas csv_simps = parseCSV_def parseCSVLine_def trim_def is_space_def normalize_header_def
  toLowerCase_def toLowerCase_char_def char_of_def bit_Suc_0_iff truthy_prop_def coerce_def
  truthy_number_def parseFloat_decimal_def split_sign_def is_digit_def digits_value_def
  pow10_def exponent_part_def

text \<open>
  C1 (as amended): the catalog made from a feed consists, in feed order, of the products of
  exactly those data rows that have a non-empty id cell, a non-empty name cell and a price
  cell that \<open>parseFloat\<close> reads as a number other than zero and NaN.  A price of zero
  excludes the row, as a missing or unreadable price does.  In the example feed the rows
  A1 and A5 are accepted; the rows without a name, with price 0 and without a price are
  dropped.
\<close>

theorem parseCSV_accepts_rows:
  "parseCSV pf csv =
     (if length (feed_lines csv) < 2 then []
      else map (\<lambda>values. forEach_header pf
                  (map normalize_header (parseCSVLine (hd (feed_lines csv)))) 0 values Map.empty)
             (filter (row_accepted pf (map normalize_header (parseCSVLine (hd (feed_lines csv)))))
                (map parseCSVLine (tl (feed_lines csv))))) \<and>
   map (\<lambda>p. p ''id'') (parseCSV parseFloat_decimal example_feed) =
     [Some (JStr ''A1''), Some (JStr ''A5'')]"
proof
  show "parseCSV pf csv =
     (if length (feed_lines csv) < 2 then []
      else map (\<lambda>values. forEach_header pf
                  (map normalize_header (parseCSVLine (hd (feed_lines csv)))) 0 values Map.empty)
             (filter (row_accepted pf (map normalize_header (parseCSVLine (hd (feed_lines csv)))))
                (map parseCSVLine (tl (feed_lines csv)))))"
    by (rule parseCSV_filter)
  show "map (\<lambda>p. p ''id'') (parseCSV parseFloat_decimal example_feed) =
     [Some (JStr ''A1''), Some (JStr ''A5'')]"
    by (simp add: csv_simps example_feed_def)
qed

text \<open>
  C1 as stated fails: the row \<open>A1,Shirt,0\<close> has a non-empty id, a non-empty name and a
  price field that is present, and it is not accepted.
\<close>

theorem parseCSV_drops_zero_price:
  "feed_lines zero_price_feed = [''id,name,price'', ''A1,Shirt,0''] \<and>
   map normalize_header (parseCSVLine ''id,name,price'') = [''id'', ''name'', ''price''] \<and>
   parseCSVLine ''A1,Shirt,0'' = [''A1'', ''Shirt'', ''0''] \<and>
   parseCSV parseFloat_decimal zero_price_feed = []"
  by (simp add: csv_simps zero_price_feed_def feed_lines_def)


lemma fetch_cached:
  "loaded s \<Longrightarrow> products_items s \<noteq> [] \<Longrightarrow> fetch pf answer s = (products_items s, s)"
  by (simp add: fetch_def)

lemma fetch_all_cached:
  "loaded s \<Longrightarrow> products_items s \<noteq> [] \<Longrightarrow>
   fetch_all pf answers s = (replicate (length answers) (products_items s), s)"
  by (induction answers) (simp_all add: fetch_cached)

lemma demo_nonempty: "getDemoProducts \<noteq> []"
  by (simp add: getDemoProducts_def)

lemma fetch_success:
  "\<not> (loaded s \<and> products_items s \<noteq> []) \<Longrightarrow>
   fetch pf (Response True (Some csv)) s =
     (parseCSV pf csv, s\<lparr>products_items := parseCSV pf csv,
         categories := extractCategories (s\<lparr>products_items := parseCSV pf csv\<rparr>),
         loaded := True, requests := requests s + 1\<rparr>)"
  by (auto simp add: fetch_def Let_def extractCategories_def)

lemma fetch_failure:
  "\<not> (loaded s \<and> products_items s \<noteq> []) \<Longrightarrow> failed answer \<Longrightarrow>
   fetch pf answer s =
     (getDemoProducts, s\<lparr>products_items := getDemoProducts,
         categories := extractCategories (s\<lparr>products_items := getDemoProducts\<rparr>),
         requests := requests s + 1\<rparr>)"
  by (auto simp add: fetch_def Let_def extractCategories_def failed_def split: response.splits option.splits bool.splits)

text \<open>
  C2 (as amended): from the initial state, after a first load that succeeded with a
  non-empty product list, every later load call of the session returns that same list and
  sends no further request.  After a first load that fell back to the demo list the catalog
  is not marked as loaded: the next load call sends a second request, and returns the
  products of the feed when that request succeeds.
\<close>

theorem fetch_caches_loaded_catalog:
  "(parseCSV pf csv \<noteq> [] \<longrightarrow>
      (let (r1, s1) = fetch pf (Response True (Some csv)) Products_initial
       in r1 = parseCSV pf csv \<and> requests s1 = 1 \<and>
          fetch_all pf answers s1 = (replicate (length answers) r1, s1))) \<and>
   (failed answer \<longrightarrow>
      (let (r1, s1) = fetch pf answer Products_initial
       in r1 = getDemoProducts \<and> requests s1 = 1 \<and>
          requests (snd (fetch pf answer2 s1)) = 2 \<and>
          (\<forall>csv2. answer2 = Response True (Some csv2) \<longrightarrow>
             fst (fetch pf answer2 s1) = parseCSV pf csv2)))"
proof (intro conjI impI)
  assume ne: "parseCSV pf csv \<noteq> []"
  have i: "\<not> (loaded Products_initial \<and> products_items Products_initial \<noteq> [])"
    by (simp add: Products_initial_def)
  show "let (r1, s1) = fetch pf (Response True (Some csv)) Products_initial
       in r1 = parseCSV pf csv \<and> requests s1 = 1 \<and>
          fetch_all pf answers s1 = (replicate (length answers) r1, s1)"
    unfolding fetch_success[OF i] Let_def prod.case
    using ne by (simp add: fetch_all_cached) (simp add: Products_initial_def)
next
  assume f: "failed answer"
  have i: "\<not> (loaded Products_initial \<and> products_items Products_initial \<noteq> [])"
    by (simp add: Products_initial_def)
  let ?s1 = "Products_initial\<lparr>products_items := getDemoProducts,
         categories := extractCategories (Products_initial\<lparr>products_items := getDemoProducts\<rparr>),
         requests := requests Products_initial + 1\<rparr>"
  have n: "\<not> (loaded ?s1 \<and> products_items ?s1 \<noteq> [])"
    by (simp add: Products_initial_def)
  have r2: "requests (snd (fetch pf answer2 ?s1)) = 2"
    using n by (cases "failed answer2")
      (auto simp add: fetch_def Let_def Products_initial_def split: response.splits option.splits bool.splits)
  have r3: "\<forall>csv2. answer2 = Response True (Some csv2) \<longrightarrow>
             fst (fetch pf answer2 ?s1) = parseCSV pf csv2"
    using fetch_success[OF n] by simp
  show "let (r1, s1) = fetch pf answer Products_initial
       in r1 = getDemoProducts \<and> requests s1 = 1 \<and>
          requests (snd (fetch pf answer2 s1)) = 2 \<and>
          (\<forall>csv2. answer2 = Response True (Some csv2) \<longrightarrow>
             fst (fetch pf answer2 s1) = parseCSV pf csv2)"
    unfolding fetch_failure[OF i f] Let_def prod.case
    using r2 r3 by (simp add: Products_initial_def)
qed

theorem fetch_caches_loaded_catalog_witness:
  "parseCSV parseFloat_decimal example_feed \<noteq> [] \<and> failed Rejected \<and>
   fst (fetch_all parseFloat_decimal [Rejected, Response False None]
         (snd (fetch parseFloat_decimal (Response True (Some example_feed)) Products_initial))) =
     [parseCSV parseFloat_decimal example_feed, parseCSV parseFloat_decimal example_feed] \<and>
   requests (snd (fetch_all parseFloat_decimal [Rejected, Response False None]
         (snd (fetch parseFloat_decimal (Response True (Some example_feed)) Products_initial)))) = 1 \<and>
   fst (fetch parseFloat_decimal (Response True (Some example_feed))
         (snd (fetch parseFloat_decimal Rejected Products_initial))) =
     parseCSV parseFloat_decimal example_feed"
proof -
  have ne: "parseCSV parseFloat_decimal example_feed \<noteq> []"
    by (simp add: csv_simps example_feed_def)
  have f: "failed Rejected" by (simp add: failed_def)
  from fetch_caches_loaded_catalog[of parseFloat_decimal example_feed
      "[Rejected, Response False None]" Rejected "Response True (Some example_feed)"] ne f
  show ?thesis by (simp add: case_prod_beta Let_def)
qed

text \<open>
  C2 as stated fails: after a first load that fell back to the demo list, the second load
  call sends a second request, and when the feed then answers it returns the two products
  of the feed instead of the six demo products returned before.
\<close>

theorem fetch_retries_after_fallback:
  "fst (fetch parseFloat_decimal Rejected Products_initial) = getDemoProducts \<and>
   length getDemoProducts = 6 \<and>
   requests (snd (fetch parseFloat_decimal (Response True (Some example_feed))
      (snd (fetch parseFloat_decimal Rejected Products_initial)))) = 2 \<and>
   length (fst (fetch parseFloat_decimal (Response True (Some example_feed))
      (snd (fetch parseFloat_decimal Rejected Products_initial)))) = 2"
proof -
  have n: "length (parseCSV parseFloat_decimal example_feed) = 2"
    by (simp add: csv_simps example_feed_def)
  have d: "length getDemoProducts = 6" by (simp add: getDemoProducts_def)
  show ?thesis
    using n d by (simp add: fetch_def Let_def Products_initial_def)
qed


end
